theory Spec2Isabelle
  imports Main "HOL-Library.Multiset"
begin

section \<open>Strings and numbers of the host language\<close>

text \<open>
  A JavaScript string is the sequence of its UTF-16 code units; each code unit is a
  natural number. \<open>lit\<close> turns an ASCII literal into such a sequence. The loop of
  \<open>parseCSV\<close> iterates by code point, but it only tests for the quote and the comma,
  which are single code units that never occur inside a surrogate pair, and it appends
  every other code point unchanged: iterating by code unit gives the same strings.
\<close>

type_synonym jsstring = "nat list"

definition lit :: "string \<Rightarrow> jsstring" where
  "lit s = map of_char s"

definition LF :: nat where "LF = 10"
definition QUOTE :: nat where "QUOTE = 34"
definition COMMA :: nat where "COMMA = 44"
definition PLUS :: nat where "PLUS = 43"
definition MINUS :: nat where "MINUS = 45"

text \<open>
  The code units that \<open>String.prototype.trim\<close> strips and that \<open>parseInt\<close> skips:
  WhiteSpace and LineTerminator of ECMAScript (TAB, LF, VT, FF, CR, SP, NBSP, U+1680,
  U+2000 to U+200A, U+2028, U+2029, U+202F, U+205F, U+3000, U+FEFF).
\<close>

definition is_ws :: "nat \<Rightarrow> bool" where
  "is_ws c = (c \<in> set [9, 10, 11, 12, 13, 32, 160, 5760, 8232, 8233, 8239, 8287, 12288, 65279]
              \<or> (8192 \<le> c \<and> c \<le> 8202))"

definition trim :: "jsstring \<Rightarrow> jsstring" where
  "trim s = rev (dropWhile is_ws (rev (dropWhile is_ws s)))"

text \<open>
  \<open>s.split(sep)\<close> for a one-unit separator: the pieces between the occurrences of the
  separator; the empty string gives one empty piece. The result is never empty, so the
  first branch of the case distinction is never taken.
\<close>

fun split_on :: "nat \<Rightarrow> jsstring \<Rightarrow> jsstring list" where
  "split_on sep [] = [[]]"
| "split_on sep (c # cs) =
     (if c = sep then [] # split_on sep cs
      else (case split_on sep cs of
              [] \<Rightarrow> [[c]]
            | w # ws \<Rightarrow> (c # w) # ws))"

text \<open>
  A JavaScript number is modelled as \<open>NaN\<close> or an integer. The model is exact for the
  integers a double holds exactly (magnitude up to \<open>2^53\<close>); \<open>-0\<close> is \<open>Num 0\<close>, which
  no operation used here distinguishes from \<open>+0\<close>.
\<close>

datatype jsnum = NaN | Num int

definition is_digit :: "nat \<Rightarrow> bool" where
  "is_digit c = (48 \<le> c \<and> c \<le> 57)"

definition digits_val :: "jsstring \<Rightarrow> nat" where
  "digits_val ds = foldl (\<lambda>acc c. 10 * acc + (c - 48)) 0 ds"

text \<open>
  \<open>parseInt(s, 10)\<close>: skip leading white space, read an optional sign, then the longest
  run of decimal digits; no digit gives \<open>NaN\<close>. Anything after the digits is ignored.
\<close>

definition parseInt :: "jsstring \<Rightarrow> jsnum" where
  "parseInt s =
     (let t = dropWhile is_ws s;
          neg = (t \<noteq> [] \<and> hd t = MINUS);
          r = (if t \<noteq> [] \<and> (hd t = MINUS \<or> hd t = PLUS) then tl t else t);
          ds = takeWhile is_digit r
      in if ds = [] then NaN
         else Num ((if neg then - 1 else 1) * int (digits_val ds)))"

text \<open>
  \<open>parseInt(v, 10)\<close> of a value that may be \<open>undefined\<close> (\<open>None\<close>): the argument is
  first converted to a string, and \<open>undefined\<close> converts to the string "undefined".
\<close>

definition parseInt_val :: "jsstring option \<Rightarrow> jsnum" where
  "parseInt_val v = (case v of None \<Rightarrow> parseInt (lit ''undefined'') | Some s \<Rightarrow> parseInt s)"

text \<open>The string of an integer number, as a template literal prints it.\<close>

fun digits_of :: "nat \<Rightarrow> jsstring" where
  "digits_of n = (if n < 10 then [48 + n] else digits_of (n div 10) @ [48 + n mod 10])"

declare digits_of.simps [simp del]

definition number_to_string :: "jsnum \<Rightarrow> jsstring" where
  "number_to_string v =
     (case v of NaN \<Rightarrow> lit ''NaN''
      | Num i \<Rightarrow> if i < 0 then MINUS # digits_of (nat (- i)) else digits_of (nat i))"

definition num_sub :: "jsnum \<Rightarrow> jsnum \<Rightarrow> jsnum" where
  "num_sub a b = (case (a, b) of (Num x, Num y) \<Rightarrow> Num (x - y) | _ \<Rightarrow> NaN)"

definition num_gt :: "jsnum \<Rightarrow> jsnum \<Rightarrow> bool" where
  "num_gt a b = (case (a, b) of (Num x, Num y) \<Rightarrow> x > y | _ \<Rightarrow> False)"

definition num_lt :: "jsnum \<Rightarrow> jsnum \<Rightarrow> bool" where
  "num_lt a b = (case (a, b) of (Num x, Num y) \<Rightarrow> x < y | _ \<Rightarrow> False)"

definition num_le :: "jsnum \<Rightarrow> jsnum \<Rightarrow> bool" where
  "num_le a b = (case (a, b) of (Num x, Num y) \<Rightarrow> x \<le> y | _ \<Rightarrow> False)"

definition Math_abs :: "jsnum \<Rightarrow> jsnum" where
  "Math_abs v = (case v of NaN \<Rightarrow> NaN | Num x \<Rightarrow> Num \<bar>x\<bar>)"

text \<open>\<open>a || b\<close> on numbers: \<open>NaN\<close> and zero are falsy.\<close>

definition num_or :: "jsnum \<Rightarrow> jsnum \<Rightarrow> jsnum" where
  "num_or a b = (if a = NaN \<or> a = Num 0 then b else a)"

section \<open>Objects with string-valued properties\<close>

text \<open>
  A row object starts as \<open>{}\<close> and receives \<open>row[header] = value\<close> assignments. It is
  modelled by the list of its own properties in creation order. Assigning to an existing
  key replaces the value in place; assigning to a new key appends. The key
  \<open>__proto__\<close> is the accessor inherited from \<open>Object.prototype\<close>: its setter ignores a
  string, so that assignment creates no property.
\<close>

type_synonym jsobject = "(jsstring \<times> jsstring) list"

fun obj_update :: "jsstring \<Rightarrow> jsstring \<Rightarrow> jsobject \<Rightarrow> jsobject" where
  "obj_update k v [] = [(k, v)]"
| "obj_update k v (p # ps) = (if fst p = k then (k, v) # ps else p # obj_update k v ps)"

definition obj_set :: "jsobject \<Rightarrow> jsstring \<Rightarrow> jsstring \<Rightarrow> jsobject" where
  "obj_set row k v = (if k = lit ''__proto__'' then row else obj_update k v row)"

text \<open>
  \<open>row[name]\<close> for a name that \<open>Object.prototype\<close> does not define (the four column
  names read below): the own property, or \<open>undefined\<close> (\<open>None\<close>).
\<close>

definition obj_get :: "jsobject \<Rightarrow> jsstring \<Rightarrow> jsstring option" where
  "obj_get row k = map_of row k"

text \<open>
  An array index is a canonical decimal string of value at most \<open>2^32 - 2\<close>. Property
  enumeration lists the array-index keys first, in ascending numeric order, and then the
  other keys in creation order; \<open>Object.values\<close> returns the values in that order.
\<close>

definition is_array_index :: "jsstring \<Rightarrow> bool" where
  "is_array_index k =
     (k \<noteq> [] \<and> list_all is_digit k \<and> (k = [48] \<or> hd k \<noteq> 48) \<and> digits_val k \<le> 4294967294)"

definition own_property_order :: "jsobject \<Rightarrow> jsobject" where
  "own_property_order row =
     sort_key (\<lambda>p. digits_val (fst p)) (filter (\<lambda>p. is_array_index (fst p)) row)
     @ filter (\<lambda>p. \<not> is_array_index (fst p)) row"

definition Object_keys :: "jsobject \<Rightarrow> jsstring list" where
  "Object_keys row = map fst (own_property_order row)"

definition Object_values :: "jsobject \<Rightarrow> jsstring list" where
  "Object_values row = map snd (own_property_order row)"

text \<open>\<open>xs[i]\<close> on an array: \<open>undefined\<close> (\<open>None\<close>) out of range.\<close>

definition array_get :: "'a list \<Rightarrow> nat \<Rightarrow> 'a option" where
  "array_get xs i = (if i < length xs then Some (xs ! i) else None)"

section \<open>parseCSV\<close>

definition header_token :: "jsstring \<Rightarrow> jsstring" where
  "header_token h = filter (\<lambda>c. c \<noteq> QUOTE) (trim h)"

definition parse_headers :: "jsstring \<Rightarrow> jsstring list" where
  "parse_headers line = map header_token (split_on COMMA line)"

text \<open>
  The scan of one data line. The state is \<open>(values, current, inQuotes)\<close>, as the three
  variables of the loop.
\<close>

fun scan_line :: "jsstring \<Rightarrow> jsstring list \<times> jsstring \<times> bool \<Rightarrow> jsstring list \<times> jsstring \<times> bool" where
  "scan_line [] st = st"
| "scan_line (c # cs) (values, current, inQuotes) =
     (if c = QUOTE then scan_line cs (values, current, \<not> inQuotes)
      else if c = COMMA \<and> \<not> inQuotes then scan_line cs (values @ [trim current], [], inQuotes)
      else scan_line cs (values, current @ [c], inQuotes))"

definition line_values :: "jsstring \<Rightarrow> jsstring list" where
  "line_values line =
     (case scan_line line ([], [], False) of (values, current, inQuotes) \<Rightarrow> values @ [trim current])"

text \<open>\<open>values[i] || ''\<close>: a missing or empty value gives the empty string.\<close>

definition value_or_empty :: "jsstring list \<Rightarrow> nat \<Rightarrow> jsstring" where
  "value_or_empty values i = (case array_get values i of None \<Rightarrow> [] | Some v \<Rightarrow> if v = [] then [] else v)"

definition build_row :: "jsstring list \<Rightarrow> jsstring list \<Rightarrow> jsobject" where
  "build_row headers values =
     fold (\<lambda>(i, header) row. obj_set row header (value_or_empty values i)) (enumerate 0 headers) []"

definition parseCSV :: "jsstring \<Rightarrow> jsobject list" where
  "parseCSV csvText =
     (let lines = split_on LF (trim csvText)
      in if length lines < 2 then []
         else let headers = parse_headers (hd lines)
              in map (\<lambda>line. build_row headers (line_values line)) (tl lines))"

section \<open>Module-level bindings\<close>

text \<open>
  \<open>CONFIG.deadline\<close> is \<open>null\<close> at first and then whatever \<open>Object.values(row)[1]\<close>
  was: a string or \<open>undefined\<close>. \<open>CONFIG.currentWeek\<close> is \<open>null\<close> (\<open>None\<close>) at
  first and then a number.
\<close>

datatype jsval = JNull | JUndefined | JStr jsstring

record runtime_config =
  deadline :: jsval
  currentWeek :: "jsnum option"

record contestant =
  codename :: "jsstring option"
  currentRank :: jsnum
  previousRank :: jsnum
  shamed :: bool

text \<open>
  The bindings of the script that the functions below read or write. \<open>requests\<close> is
  not a variable of the script: it records the effect of \<open>fetch\<close>, the time of each
  call with the address it was given, oldest first.
\<close>

record page =
  LEADERBOARD_CSV_URL :: jsstring
  CONFIG_CSV_URL :: jsstring
  CONFIG :: runtime_config
  CONTESTANTS :: "contestant list"
  requests :: "(int \<times> jsstring) list"

definition spreadsheetId :: jsstring where
  "spreadsheetId = lit ''1htoeLmi-aczeAOJpHjf3hFnT5L26kUaGHukXX6l920g''"

definition leaderboardGid :: jsstring where
  "leaderboardGid = lit ''0''"

definition configGid :: jsstring where
  "configGid = lit ''136070622''"

definition SHEETS_BASE_URL :: jsstring where
  "SHEETS_BASE_URL =
     lit ''https://docs.google.com/spreadsheets/d/'' @ spreadsheetId @ lit ''/export?format=csv''"

definition CORS_PROXY :: jsstring where
  "CORS_PROXY = lit ''https://api.codetabs.com/v1/proxy?quest=''"

text \<open>
  \<open>CACHE_BUST\<close> is a top-level \<open>const\<close>: its \<open>Date.now()\<close> is evaluated once, when
  the script is evaluated, at time \<open>now\<close>.
\<close>

definition CACHE_BUST :: "int \<Rightarrow> jsstring" where
  "CACHE_BUST now = lit ''&_='' @ number_to_string (Num now)"

text \<open>
  \<open>encodeURIComponent\<close> on a string of ASCII code units (below 128), which is all the
  script passes to it (\<open>url_argument_ascii\<close> below): the letters, the digits and
  \<open>- _ . ! ~ * ' ( )\<close> stay, every other unit becomes \<open>%\<close> and its two upper-case
  hexadecimal digits. Units from 128 on, which the platform encodes through UTF-8, are
  outside this model.
\<close>

definition uri_unreserved :: "nat \<Rightarrow> bool" where
  "uri_unreserved c =
     ((65 \<le> c \<and> c \<le> 90) \<or> (97 \<le> c \<and> c \<le> 122) \<or> (48 \<le> c \<and> c \<le> 57)
      \<or> c \<in> set [45, 95, 46, 33, 126, 42, 39, 40, 41])"

definition hex_digit :: "nat \<Rightarrow> nat" where
  "hex_digit d = (if d < 10 then 48 + d else 55 + d)"

definition encodeURIComponent :: "jsstring \<Rightarrow> jsstring" where
  "encodeURIComponent s =
     concat (map (\<lambda>c. if uri_unreserved c then [c]
                      else [37, hex_digit (c div 16), hex_digit (c mod 16)]) s)"

text \<open>The evaluation of the top-level declarations at time \<open>now\<close>.\<close>

definition load_script :: "int \<Rightarrow> page" where
  "load_script now =
     \<lparr>LEADERBOARD_CSV_URL =
        CORS_PROXY @ encodeURIComponent (SHEETS_BASE_URL @ lit ''&gid='' @ leaderboardGid @ CACHE_BUST now),
      CONFIG_CSV_URL =
        CORS_PROXY @ encodeURIComponent (SHEETS_BASE_URL @ lit ''&gid='' @ configGid @ CACHE_BUST now),
      CONFIG = \<lparr>deadline = JNull, currentWeek = None\<rparr>,
      CONTESTANTS = [],
      requests = []\<rparr>"

section \<open>Fetching and projecting\<close>

text \<open>
  What \<open>await fetch(url)\<close> followed by \<open>await response.text()\<close> gives: the first
  promise rejects, the second rejects, or the body arrives as a string. The network is a
  function of the time of the call and the address.
\<close>

datatype fetch_outcome = FetchRejected | TextRejected | Body jsstring

type_synonym network = "int \<Rightarrow> jsstring \<Rightarrow> fetch_outcome"

text \<open>A string value is truthy when it is defined and not empty.\<close>

definition truthy :: "jsstring option \<Rightarrow> bool" where
  "truthy v = (case v of None \<Rightarrow> False | Some s \<Rightarrow> s \<noteq> [])"

definition keep_row :: "jsobject \<Rightarrow> bool" where
  "keep_row row = (truthy (obj_get row (lit ''Codename'')) \<and> truthy (obj_get row (lit ''Current Rank'')))"

definition to_contestant :: "jsobject \<Rightarrow> contestant" where
  "to_contestant row =
     \<lparr>codename = obj_get row (lit ''Codename''),
      currentRank = parseInt_val (obj_get row (lit ''Current Rank'')),
      previousRank = num_or (parseInt_val (obj_get row (lit ''Previous Rank'')))
                            (parseInt_val (obj_get row (lit ''Current Rank''))),
      shamed = (obj_get row (lit ''Shamed'') = Some (lit ''TRUE''))\<rparr>"

text \<open>
  \<open>Array.prototype.sort\<close> with a comparator. The sort is stable, and a comparator result
  of \<open>NaN\<close> counts as zero. For a comparator that is a consistent ordering the result of a
  stable sort is determined; it is computed here by insertion. For an inconsistent
  comparator the language leaves the order to the implementation, and the insertion sort is
  one such implementation.
\<close>

definition comes_after :: "jsnum \<Rightarrow> bool" where
  "comes_after v = (case v of NaN \<Rightarrow> False | Num d \<Rightarrow> d > 0)"

fun insert_by :: "('a \<Rightarrow> 'a \<Rightarrow> jsnum) \<Rightarrow> 'a \<Rightarrow> 'a list \<Rightarrow> 'a list" where
  "insert_by cmp x [] = [x]"
| "insert_by cmp x (y # ys) =
     (if comes_after (cmp x y) then y # insert_by cmp x ys else x # y # ys)"

definition Array_sort :: "('a \<Rightarrow> 'a \<Rightarrow> jsnum) \<Rightarrow> 'a list \<Rightarrow> 'a list" where
  "Array_sort cmp xs = foldr (insert_by cmp) xs []"

definition by_currentRank :: "contestant \<Rightarrow> contestant \<Rightarrow> jsnum" where
  "by_currentRank a b = num_sub (currentRank a) (currentRank b)"

definition project_rows :: "jsobject list \<Rightarrow> contestant list" where
  "project_rows data = map to_contestant (filter keep_row data)"

text \<open>
  The function returns its value together with the page after it. The assignment to
  \<open>CONTESTANTS\<close> happens after both awaits, in one step; a rejection of either promise
  goes to the \<open>catch\<close> block, which returns a new empty array.
\<close>

definition fetchLeaderboardData :: "network \<Rightarrow> int \<Rightarrow> page \<Rightarrow> contestant list \<times> page" where
  "fetchLeaderboardData net now pg =
     (let url = LEADERBOARD_CSV_URL pg;
          pg1 = pg\<lparr>requests := requests pg @ [(now, url)]\<rparr>
      in case net now url of
           FetchRejected \<Rightarrow> ([], pg1)
         | TextRejected \<Rightarrow> ([], pg1)
         | Body csvText \<Rightarrow>
             (let cs = Array_sort by_currentRank (project_rows (parseCSV csvText))
              in (cs, pg1\<lparr>CONTESTANTS := cs\<rparr>)))"

text \<open>The body of the \<open>forEach\<close> callback of \<open>fetchConfigData\<close>, on one row.\<close>

definition config_row :: "jsobject \<Rightarrow> runtime_config \<Rightarrow> runtime_config" where
  "config_row row cfg =
     (let key = array_get (Object_values row) 0;
          val = array_get (Object_values row) 1
      in if key = Some (lit ''deadline'')
         then cfg\<lparr>deadline := (case val of None \<Rightarrow> JUndefined | Some v \<Rightarrow> JStr v)\<rparr>
         else if key = Some (lit ''current_week'')
         then cfg\<lparr>currentWeek := Some (parseInt_val val)\<rparr>
         else cfg)"

definition fetchConfigData :: "network \<Rightarrow> int \<Rightarrow> page \<Rightarrow> runtime_config \<times> page" where
  "fetchConfigData net now pg =
     (let url = CONFIG_CSV_URL pg;
          pg1 = pg\<lparr>requests := requests pg @ [(now, url)]\<rparr>
      in case net now url of
           FetchRejected \<Rightarrow> (CONFIG pg, pg1)
         | TextRejected \<Rightarrow> (CONFIG pg, pg1)
         | Body csvText \<Rightarrow>
             (let cfg = fold config_row (parseCSV csvText) (CONFIG pg)
              in (cfg, pg1\<lparr>CONFIG := cfg\<rparr>)))"

section \<open>getMovement\<close>

definition UP_ARROW :: nat where "UP_ARROW = 8593"
definition DOWN_ARROW :: nat where "DOWN_ARROW = 8595"
definition EN_DASH :: nat where "EN_DASH = 8211"

text \<open>
  The result object has the properties \<open>symbol\<close> and \<open>class\<close>; the second is named
  \<open>css_class\<close> here, \<open>class\<close> being a keyword of the prover.
\<close>

record movement =
  symbol :: jsstring
  css_class :: jsstring

definition getMovement :: "jsnum \<Rightarrow> jsnum \<Rightarrow> movement" where
  "getMovement cur prev =
     (let diff = num_sub prev cur
      in if num_gt diff (Num 0)
         then \<lparr>symbol = UP_ARROW # number_to_string diff, css_class = lit ''movement-up''\<rparr>
         else if num_lt diff (Num 0)
         then \<lparr>symbol = DOWN_ARROW # number_to_string (Math_abs diff), css_class = lit ''movement-down''\<rparr>
         else \<lparr>symbol = [EN_DASH], css_class = lit ''movement-same''\<rparr>)"

section \<open>Notions used in the statements\<close>

text \<open>The rank of a contestant as an integer, zero when it is not a number.\<close>

definition rank_int :: "contestant \<Rightarrow> int" where
  "rank_int c = (case currentRank c of NaN \<Rightarrow> 0 | Num i \<Rightarrow> i)"

subsection \<open>Inputs of the examples\<close>

text \<open>A network that answers every request with the same body.\<close>

definition serving :: "jsstring \<Rightarrow> network" where
  "serving text t url = Body text"

text \<open>
  Three lines with white space and line ends before and after them, and a text whose header
  line repeats a token.
\<close>

definition padded_csv :: jsstring where
  "padded_csv = [32, LF] @ lit ''a,b'' @ [LF] @ lit ''1,2'' @ [LF] @ lit ''3'' @ [13, LF, 32]"

definition repeated_header_csv :: jsstring where
  "repeated_header_csv = lit ''a,a'' @ [LF] @ lit ''1,2''"

definition quoted_csv :: jsstring where
  "quoted_csv = lit ''a,'' @ [QUOTE] @ lit ''b,c'' @ [QUOTE] @ lit '',d'' @ [LF]
                @ lit ''X,'' @ [QUOTE] @ lit ''Y,Z'' @ [QUOTE] @ lit '',W''"

definition one_contestant_csv :: jsstring where
  "one_contestant_csv = lit ''Codename,Current Rank'' @ [LF] @ lit ''A,1''"

definition nan_rank_csv :: jsstring where
  "nan_rank_csv = lit ''Codename,Current Rank'' @ [LF] @ lit ''A,x'' @ [LF] @ lit ''B,1''"

definition tied_ranks_csv :: jsstring where
  "tied_ranks_csv = lit ''Codename,Current Rank'' @ [LF] @ lit ''A,2'' @ [LF] @ lit ''B,1'' @ [LF] @ lit ''C,2''"

definition zero_previous_csv :: jsstring where
  "zero_previous_csv = lit ''Codename,Current Rank,Previous Rank'' @ [LF] @ lit ''A,5,0''"

text \<open>
  A network that serves one contestant at time 1 and rejects every later request, and
  the page after the script was evaluated at time 0 and refreshed at time 1.
\<close>

definition up_then_down :: network where
  "up_then_down t url = (if t = 1 then Body one_contestant_csv else FetchRejected)"

definition page_after_load :: page where
  "page_after_load = snd (fetchLeaderboardData up_then_down 1 (load_script 0))"

text \<open>
  The config sheet of the specification's example: its three rows alone, and the same
  rows below a header line.
\<close>

definition config_rows_csv :: jsstring where
  "config_rows_csv = lit ''deadline,2025-12-31'' @ [LF] @ lit ''current_week,7'' @ [LF] @ lit ''unknown,x''"

definition config_headed_csv :: jsstring where
  "config_headed_csv = lit ''key,value'' @ [LF] @ config_rows_csv"

definition week_csv :: jsstring where
  "week_csv = lit ''key,value'' @ [LF] @ lit ''current_week,3''"

definition garbage_week_csv :: jsstring where
  "garbage_week_csv = lit ''key,value'' @ [LF] @ lit ''current_week,abc''"

text \<open>
  A network that serves week 3 at time 1 and an unparseable week afterwards, and the page
  after the script was evaluated at time 0 and its config refreshed at time 1.
\<close>

definition week_then_garbage :: network where
  "week_then_garbage t url = (if t = 1 then Body week_csv else Body garbage_week_csv)"

definition page_with_week :: page where
  "page_with_week = snd (fetchConfigData week_then_garbage 1 (load_script 0))"

section \<open>Lemmas on the parser\<close>

lemma split_on_nonempty: "split_on sep s \<noteq> []"
  by (induction s) (auto split: list.splits)

lemma length_parseCSV:
  "length (parseCSV text) =
     (if length (split_on LF (trim text)) < 2 then 0 else length (split_on LF (trim text)) - 1)"
  by (simp add: parseCSV_def Let_def)

lemma length_split_on: "length (split_on sep s) = count_list s sep + 1"
  by (induction s) (auto split: list.splits simp: split_on_nonempty)

lemma hd_split_on: "hd (split_on sep s) = takeWhile (\<lambda>c. c \<noteq> sep) s"
  by (induction s) (auto split: list.splits simp: split_on_nonempty)

text \<open>
  \<open>trim\<close> on a text given as white space, a core that neither starts nor ends with
  white space, and white space; every text has this shape.
\<close>

lemma trim_decomposed:
  assumes pre: "list_all is_ws pre" and post: "list_all is_ws post"
    and core: "core = [] \<or> (\<not> is_ws (hd core) \<and> \<not> is_ws (last core))"
  shows "trim (pre @ core @ post) = core"
proof (cases "core = []")
  case True
  have e: "dropWhile is_ws (pre @ post) = []"
    unfolding dropWhile_eq_Nil_conv using pre post by (auto simp: list_all_iff)
  show ?thesis
    unfolding True trim_def by (simp only: append_Nil e rev.simps dropWhile.simps)
next
  case False
  with core have ends: "\<not> is_ws (hd core)" "\<not> is_ws (last core)"
    by simp_all
  have "dropWhile is_ws (pre @ core @ post) = dropWhile is_ws (core @ post)"
    using pre by (simp add: list_all_iff)
  also have "\<dots> = core @ post"
    using False ends(1) by (cases core) simp_all
  finally have front: "dropWhile is_ws (pre @ core @ post) = core @ post" .
  have "dropWhile is_ws (rev post @ rev core) = dropWhile is_ws (rev core)"
    using post by (intro dropWhile_append2) (simp add: list_all_iff)
  also have "\<dots> = rev core"
    using False ends(2) by (simp add: dropWhile_eq_self_iff hd_rev)
  finally show ?thesis
    by (simp add: trim_def front)
qed

lemma text_decomposes:
  "\<exists>pre core post. s = pre @ core @ post \<and> list_all is_ws pre \<and> list_all is_ws post \<and>
     (core = [] \<or> (\<not> is_ws (hd core) \<and> \<not> is_ws (last core)))"
proof -
  let ?rest = "dropWhile is_ws s"
  let ?core = "rev (dropWhile is_ws (rev ?rest))"
  let ?post = "rev (takeWhile is_ws (rev ?rest))"
  have rest: "?rest = ?core @ ?post"
    by (metis rev_append rev_rev_ident takeWhile_dropWhile_id)
  have s: "s = takeWhile is_ws s @ ?core @ ?post"
    using rest by (metis takeWhile_dropWhile_id)
  have pre: "list_all is_ws (takeWhile is_ws s)"
    by (simp add: list_all_iff) (metis set_takeWhileD)
  have post: "list_all is_ws ?post"
    by (simp add: list_all_iff) (metis set_takeWhileD)
  have last: "\<not> is_ws (last ?core)" if "?core \<noteq> []"
    using that hd_dropWhile [of is_ws "rev ?rest"] by (simp add: last_rev)
  have hd: "\<not> is_ws (hd ?core)" if ne: "?core \<noteq> []"
  proof -
    from ne rest have "hd ?core = hd ?rest" by (metis hd_append2)
    moreover from ne rest have "?rest \<noteq> []" by (metis append_is_Nil_conv)
    ultimately show ?thesis using hd_dropWhile [of is_ws s] by simp
  qed
  from s pre post hd last show ?thesis by blast
qed

text \<open>
  The keys of a row are the header tokens other than \<open>__proto__\<close>, each once.
\<close>

lemma keys_obj_update_general:
  "distinct (map fst row) \<Longrightarrow>
   distinct (map fst (obj_update k v row)) \<and> set (map fst (obj_update k v row)) = insert k (set (map fst row))"
  by (induction row) auto

lemma keys_fold_obj_set_general:
  "distinct (map fst acc) \<Longrightarrow>
   distinct (map fst (fold (\<lambda>(i, header) row. obj_set row header (g i)) (enumerate n hs) acc)) \<and>
   set (map fst (fold (\<lambda>(i, header) row. obj_set row header (g i)) (enumerate n hs) acc)) =
     set (map fst acc) \<union> (set hs - {lit ''__proto__''})"
proof (induction hs arbitrary: n acc)
  case Nil
  then show ?case by simp
next
  case (Cons h hs)
  have d: "distinct (map fst (obj_set acc h (g n)))"
    using Cons.prems keys_obj_update_general [of acc h "g n"] by (simp add: obj_set_def)
  have s: "set (map fst (obj_set acc h (g n))) = set (map fst acc) \<union> ({h} - {lit ''__proto__''})"
    using Cons.prems keys_obj_update_general [of acc h "g n"] by (auto simp: obj_set_def)
  from Cons.IH [OF d, of "Suc n"] s show ?case by auto
qed

lemma length_build_row:
  "length (build_row headers values) = card (set headers - {lit ''__proto__''})"
proof -
  from keys_fold_obj_set_general [of "[]" "value_or_empty values" 0 headers]
  have d: "distinct (map fst (build_row headers values))"
    and s: "set (map fst (build_row headers values)) = set headers - {lit ''__proto__''}"
    by (simp_all add: build_row_def)
  from d have "card (set (map fst (build_row headers values))) = length (map fst (build_row headers values))"
    by (rule distinct_card)
  with s show ?thesis by simp
qed

lemma card_without_eq_length:
  "(card (set hs - {p}) = length hs) = (distinct hs \<and> p \<notin> set hs)"
proof
  assume eq: "card (set hs - {p}) = length hs"
  have "card (set hs - {p}) \<le> card (set hs)"
    by (simp add: card_mono)
  moreover have "card (set hs) \<le> length hs"
    by (rule card_length)
  ultimately have full: "card (set hs) = length hs" and same: "card (set hs - {p}) = card (set hs)"
    using eq by simp_all
  from full have "distinct hs" by (rule card_distinct)
  moreover have "p \<notin> set hs"
  proof
    assume "p \<in> set hs"
    then have "card (set hs - {p}) < card (set hs)"
      by (intro card_Diff1_less) simp_all
    with same show False by simp
  qed
  ultimately show "distinct hs \<and> p \<notin> set hs" ..
next
  assume "distinct hs \<and> p \<notin> set hs"
  then show "card (set hs - {p}) = length hs"
    by (simp add: distinct_card)
qed

lemma length_own_property_order: "length (own_property_order row) = length row"
  by (simp add: own_property_order_def sum_length_filter_compl)

lemma length_Object_keys: "length (Object_keys row) = length row"
  by (simp add: Object_keys_def length_own_property_order)

lemma scan_line_in_quotes:
  "QUOTE \<notin> set u \<Longrightarrow>
   scan_line (u @ rest) (values, current, True) = scan_line rest (values, current @ u, True)"
  by (induction u arbitrary: current) auto

text \<open>The equations that evaluate the parser, the projection and the config step on a given text.\<close>

lemmas eval_defs = lit_def LF_def QUOTE_def COMMA_def PLUS_def MINUS_def is_ws_def trim_def
  parseCSV_def parse_headers_def header_token_def line_values_def build_row_def
  value_or_empty_def array_get_def obj_set_def Let_def enumerate_eq_zip upt_conv_Cons

lemmas row_defs = keep_row_def truthy_def to_contestant_def obj_get_def parseInt_val_def parseInt_def
  is_digit_def digits_val_def num_or_def lit_def is_ws_def PLUS_def MINUS_def Let_def

lemmas config_defs = config_row_def Object_values_def own_property_order_def is_array_index_def
  is_digit_def array_get_def parseInt_val_def parseInt_def digits_val_def

lemma parse_repeated_header:
  "parseCSV repeated_header_csv = [[(lit ''a'', lit ''2'')]]"
  by (simp add: repeated_header_csv_def eval_defs)

lemma parse_quoted:
  "parseCSV quoted_csv =
     [[(lit ''a'', lit ''X''), (lit ''b'', lit ''Y,Z''), (lit ''c'', lit ''W''), (lit ''d'', [])]]"
  by (simp add: quoted_csv_def eval_defs)

lemma headers_quoted:
  "parse_headers (hd (split_on LF (trim quoted_csv))) = [lit ''a'', lit ''b'', lit ''c'', lit ''d'']"
  by (simp add: quoted_csv_def eval_defs)

lemma parse_one_contestant:
  "parseCSV one_contestant_csv = [[(lit ''Codename'', lit ''A''), (lit ''Current Rank'', lit ''1'')]]"
  by (simp add: one_contestant_csv_def eval_defs)

lemma parse_nan_rank:
  "parseCSV nan_rank_csv =
     [[(lit ''Codename'', lit ''A''), (lit ''Current Rank'', lit ''x'')],
      [(lit ''Codename'', lit ''B''), (lit ''Current Rank'', lit ''1'')]]"
  by (simp add: nan_rank_csv_def eval_defs)

lemma parse_tied_ranks:
  "parseCSV tied_ranks_csv =
     [[(lit ''Codename'', lit ''A''), (lit ''Current Rank'', lit ''2'')],
      [(lit ''Codename'', lit ''B''), (lit ''Current Rank'', lit ''1'')],
      [(lit ''Codename'', lit ''C''), (lit ''Current Rank'', lit ''2'')]]"
  by (simp add: tied_ranks_csv_def eval_defs)

lemma parse_zero_previous:
  "parseCSV zero_previous_csv =
     [[(lit ''Codename'', lit ''A''), (lit ''Current Rank'', lit ''5''), (lit ''Previous Rank'', lit ''0'')]]"
  by (simp add: zero_previous_csv_def eval_defs)

lemma parse_config_rows:
  "parseCSV config_rows_csv =
     [[(lit ''deadline'', lit ''current_week''), (lit ''2025-12-31'', lit ''7'')],
      [(lit ''deadline'', lit ''unknown''), (lit ''2025-12-31'', lit ''x'')]]"
  by (simp add: config_rows_csv_def eval_defs)

lemma parse_config_headed:
  "parseCSV config_headed_csv =
     [[(lit ''key'', lit ''deadline''), (lit ''value'', lit ''2025-12-31'')],
      [(lit ''key'', lit ''current_week''), (lit ''value'', lit ''7'')],
      [(lit ''key'', lit ''unknown''), (lit ''value'', lit ''x'')]]"
  by (simp add: config_headed_csv_def config_rows_csv_def eval_defs)

lemma parse_week:
  "parseCSV week_csv = [[(lit ''key'', lit ''current_week''), (lit ''value'', lit ''3'')]]"
  by (simp add: week_csv_def eval_defs)

lemma parse_garbage_week:
  "parseCSV garbage_week_csv = [[(lit ''key'', lit ''current_week''), (lit ''value'', lit ''abc'')]]"
  by (simp add: garbage_week_csv_def eval_defs)

section \<open>Lemmas on the addresses\<close>

lemma digits_of_ascii: "\<forall>c \<in> set (digits_of n). c < 128"
proof (induction n rule: digits_of.induct)
  case (1 n)
  show ?case
  proof (cases "n < 10")
    case True
    then show ?thesis by (subst digits_of.simps) simp
  next
    case False
    have "n mod 10 < 10" by simp
    then have "48 + n mod 10 < 128" by linarith
    with False 1 show ?thesis by (subst digits_of.simps) simp
  qed
qed

lemma url_argument_ascii:
  "\<forall>c \<in> set (SHEETS_BASE_URL @ lit ''&gid='' @ leaderboardGid @ CACHE_BUST now). c < 128"
  "\<forall>c \<in> set (SHEETS_BASE_URL @ lit ''&gid='' @ configGid @ CACHE_BUST now). c < 128"
  using digits_of_ascii
  by (simp_all add: SHEETS_BASE_URL_def spreadsheetId_def leaderboardGid_def configGid_def
      CACHE_BUST_def number_to_string_def MINUS_def lit_def ball_Un)

lemma requests_fetchLeaderboardData:
  "requests (snd (fetchLeaderboardData net now pg)) = requests pg @ [(now, LEADERBOARD_CSV_URL pg)]"
  by (simp add: fetchLeaderboardData_def Let_def split: fetch_outcome.splits)

lemma url_fetchLeaderboardData:
  "LEADERBOARD_CSV_URL (snd (fetchLeaderboardData net now pg)) = LEADERBOARD_CSV_URL pg"
  by (simp add: fetchLeaderboardData_def Let_def split: fetch_outcome.splits)

lemma leaderboard_url_1000:
  "LEADERBOARD_CSV_URL (load_script 1000) =
     lit ''https://api.codetabs.com/v1/proxy?quest='' @
     lit ''https%3A%2F%2Fdocs.google.com%2Fspreadsheets%2Fd%2F1htoeLmi-aczeAOJpHjf3hFnT5L26kUaGHukXX6l920g'' @
     lit ''%2Fexport%3Fformat%3Dcsv%26gid%3D0%26_%3D1000''"
  by (simp add: load_script_def CORS_PROXY_def SHEETS_BASE_URL_def spreadsheetId_def leaderboardGid_def
      CACHE_BUST_def number_to_string_def digits_of.simps encodeURIComponent_def uri_unreserved_def
      hex_digit_def lit_def)

section \<open>Lemmas on the sort\<close>

lemma set_insert_by: "set (insert_by cmp x ys) = insert x (set ys)"
  by (induction ys) auto

lemma set_Array_sort: "set (Array_sort cmp xs) = set xs"
  by (induction xs) (simp_all add: Array_sort_def set_insert_by)

lemma mset_insert_by: "mset (insert_by cmp x ys) = add_mset x (mset ys)"
  by (induction ys) auto

lemma mset_Array_sort: "mset (Array_sort cmp xs) = mset xs"
  by (induction xs) (simp_all add: Array_sort_def mset_insert_by)

text \<open>On ranks that are numbers, the insertion is the library's insertion by the integer rank.\<close>

lemma insert_by_insort_key:
  "currentRank x \<noteq> NaN \<Longrightarrow> \<forall>y \<in> set ys. currentRank y \<noteq> NaN \<Longrightarrow>
   insert_by by_currentRank x ys = insort_key rank_int x ys"
proof (induction ys)
  case Nil
  then show ?case by simp
next
  case (Cons y ys)
  from Cons.prems obtain i j where "currentRank x = Num i" "currentRank y = Num j"
    by (cases "currentRank x"; cases "currentRank y") auto
  then have "comes_after (by_currentRank x y) = (\<not> rank_int x \<le> rank_int y)"
    by (auto simp: comes_after_def by_currentRank_def num_sub_def rank_int_def)
  with Cons show ?case by simp
qed

lemma Array_sort_sort_key:
  "\<forall>c \<in> set xs. currentRank c \<noteq> NaN \<Longrightarrow> Array_sort by_currentRank xs = sort_key rank_int xs"
proof (induction xs)
  case Nil
  then show ?case by (simp add: Array_sort_def)
next
  case (Cons x xs)
  then have ih: "Array_sort by_currentRank xs = sort_key rank_int xs"
    by simp
  have "\<forall>y \<in> set (sort_key rank_int xs). currentRank y \<noteq> NaN"
    using Cons.prems by simp
  then have "insert_by by_currentRank x (sort_key rank_int xs) = insort_key rank_int x (sort_key rank_int xs)"
    using Cons.prems by (intro insert_by_insort_key) simp_all
  then show ?case
    using ih by (simp add: Array_sort_def sort_key_def)
qed

lemma num_le_rank_int:
  "currentRank a \<noteq> NaN \<Longrightarrow> currentRank b \<noteq> NaN \<Longrightarrow>
   num_le (currentRank a) (currentRank b) = (rank_int a \<le> rank_int b)"
  by (cases "currentRank a"; cases "currentRank b") (simp_all add: num_le_def rank_int_def)

lemma sorted_Array_sort:
  assumes "\<forall>c \<in> set xs. currentRank c \<noteq> NaN"
  shows "sorted_wrt (\<lambda>a b. num_le (currentRank a) (currentRank b)) (Array_sort by_currentRank xs)"
proof -
  have "sorted (map rank_int (sort_key rank_int xs))"
    by simp
  then have "sorted_wrt (\<lambda>a b. rank_int a \<le> rank_int b) (sort_key rank_int xs)"
    by (simp add: sorted_map)
  moreover have "num_le (currentRank a) (currentRank b)"
    if "a \<in> set (sort_key rank_int xs)" "b \<in> set (sort_key rank_int xs)" "rank_int a \<le> rank_int b"
    for a b
    using that assms by (simp add: num_le_rank_int)
  ultimately have "sorted_wrt (\<lambda>a b. num_le (currentRank a) (currentRank b)) (sort_key rank_int xs)"
    by (rule sorted_wrt_mono_rel [rotated])
  then show ?thesis
    using assms by (simp add: Array_sort_sort_key)
qed

lemma stable_Array_sort:
  assumes "\<forall>c \<in> set xs. currentRank c \<noteq> NaN"
  shows "filter (\<lambda>c. currentRank c = r) (Array_sort by_currentRank xs) = filter (\<lambda>c. currentRank c = r) xs"
proof (cases r)
  case NaN
  have "filter (\<lambda>c. currentRank c = NaN) ys = []" if "set ys = set xs" for ys
    using assms that by (simp add: filter_empty_conv)
  then show ?thesis
    using NaN by (simp add: set_Array_sort)
next
  case (Num k)
  have eq: "filter (\<lambda>c. currentRank c = Num k) ys = filter (\<lambda>c. rank_int c = k) ys"
    if "set ys = set xs" for ys
  proof (rule filter_cong [OF refl])
    fix c assume "c \<in> set ys"
    then have "currentRank c \<noteq> NaN" using assms that by simp
    then show "(currentRank c = Num k) = (rank_int c = k)"
      by (cases "currentRank c") (simp_all add: rank_int_def)
  qed
  have "filter (\<lambda>c. rank_int c = k) (sort_key rank_int xs) = filter (\<lambda>c. rank_int c = k) xs"
    by (rule sort_key_stable)
  then show ?thesis
    using Num assms by (simp add: eq set_Array_sort Array_sort_sort_key [symmetric])
qed

section \<open>Lemmas on the projection and the config step\<close>

lemma project_rows_append: "project_rows (xs @ ys) = project_rows xs @ project_rows ys"
  by (simp add: project_rows_def)

lemma parseInt_undefined: "parseInt_val None = NaN"
  by (simp add: parseInt_val_def parseInt_def lit_def is_ws_def is_digit_def PLUS_def MINUS_def Let_def)

lemma parseInt_empty: "parseInt [] = NaN"
  by (simp add: parseInt_def)

lemma mset_fetchLeaderboardData:
  "net now (LEADERBOARD_CSV_URL pg) = Body text \<Longrightarrow>
   mset (fst (fetchLeaderboardData net now pg)) = mset (project_rows (parseCSV text))"
  by (simp add: fetchLeaderboardData_def Let_def mset_Array_sort)

lemma contestants_after_load:
  "CONTESTANTS page_after_load =
     [\<lparr>codename = Some (lit ''A''), currentRank = Num 1, previousRank = Num 1, shamed = False\<rparr>]"
  by (simp add: page_after_load_def up_then_down_def fetchLeaderboardData_def parse_one_contestant)
     (simp add: project_rows_def Array_sort_def row_defs)

lemma project_tied_ranks:
  "project_rows (parseCSV tied_ranks_csv) =
     [\<lparr>codename = Some (lit ''A''), currentRank = Num 2, previousRank = Num 2, shamed = False\<rparr>,
      \<lparr>codename = Some (lit ''B''), currentRank = Num 1, previousRank = Num 1, shamed = False\<rparr>,
      \<lparr>codename = Some (lit ''C''), currentRank = Num 2, previousRank = Num 2, shamed = False\<rparr>]"
  unfolding parse_tied_ranks by (simp add: project_rows_def row_defs)

lemma fold_config_rows:
  "fold config_row (parseCSV config_rows_csv) cfg = cfg\<lparr>currentWeek := Some (Num 7)\<rparr>"
  unfolding parse_config_rows
  by (simp add: config_defs lit_def is_ws_def PLUS_def MINUS_def Let_def)

lemma fold_config_headed:
  "fold config_row (parseCSV config_headed_csv) cfg =
     cfg\<lparr>deadline := JStr (lit ''2025-12-31''), currentWeek := Some (Num 7)\<rparr>"
  unfolding parse_config_headed
  by (simp add: config_defs lit_def is_ws_def PLUS_def MINUS_def Let_def)

lemma garbage_row:
  "array_get (Object_values [(lit ''key'', lit ''current_week''), (lit ''value'', lit ''abc'')]) 0
     = Some (lit ''current_week'')"
  "parseInt_val (array_get (Object_values [(lit ''key'', lit ''current_week''), (lit ''value'', lit ''abc'')]) 1)
     = NaN"
  by (simp_all add: config_defs lit_def is_ws_def PLUS_def MINUS_def Let_def)

lemma config_row_garbage:
  "config_row [(lit ''key'', lit ''current_week''), (lit ''value'', lit ''abc'')] cfg =
     cfg\<lparr>currentWeek := Some NaN\<rparr>"
  by (simp add: config_defs lit_def is_ws_def PLUS_def MINUS_def Let_def)

lemma config_page_with_week:
  "CONFIG page_with_week = \<lparr>deadline = JNull, currentWeek = Some (Num 3)\<rparr>"
  by (simp add: page_with_week_def fetchConfigData_def week_then_garbage_def Let_def parse_week)
     (simp add: config_defs load_script_def lit_def is_ws_def PLUS_def MINUS_def Let_def)

section \<open>A refresh that fails\<close>

text \<open>
  Claim C1, as amended. When the fetch or the reading of the body rejects, the refresh of
  the leaderboard leaves the owned contestant collection as it was, so that the collection
  read after the call is the one read before it, and it returns an empty sequence, whatever
  the collection held. Parsing and projecting a body that did arrive never fail.
\<close>

theorem failed_refresh_keeps_collection:
  "net now (LEADERBOARD_CSV_URL pg) = FetchRejected \<or> net now (LEADERBOARD_CSV_URL pg) = TextRejected \<Longrightarrow>
   CONTESTANTS (snd (fetchLeaderboardData net now pg)) = CONTESTANTS pg \<and>
   fst (fetchLeaderboardData net now pg) = []"
  by (auto simp: fetchLeaderboardData_def Let_def)

theorem failed_refresh_keeps_collection_witness:
  "up_then_down 2 (LEADERBOARD_CSV_URL page_after_load) = FetchRejected \<and>
   CONTESTANTS (snd (fetchLeaderboardData up_then_down 2 page_after_load)) =
     [\<lparr>codename = Some (lit ''A''), currentRank = Num 1, previousRank = Num 1, shamed = False\<rparr>] \<and>
   fst (fetchLeaderboardData up_then_down 2 page_after_load) = []"
proof -
  have rej: "up_then_down 2 (LEADERBOARD_CSV_URL page_after_load) = FetchRejected"
    by (simp add: up_then_down_def)
  from failed_refresh_keeps_collection [of up_then_down 2 page_after_load] rej
  show ?thesis by (simp add: contestants_after_load)
qed

text \<open>
  The claim as written fails: after one contestant was loaded, the failing refresh returns
  the empty sequence, not the collection held before.
\<close>

theorem failed_refresh_returns_empty_counterexample:
  "fst (fetchLeaderboardData up_then_down 2 page_after_load) \<noteq> CONTESTANTS page_after_load"
  by (simp add: contestants_after_load) (simp add: fetchLeaderboardData_def up_then_down_def Let_def)

section \<open>The config sheet\<close>

text \<open>
  Claim C2, as amended. The first line of the config sheet is the header line of the parser
  and is never read as a key/value pair. When the three rows of the example stand below a
  header line, the refresh of the config yields deadline "2025-12-31" and current week 7 and
  stores them; every row below the header is read as a pair from its first two values. When
  the three rows stand alone, the deadline row is taken as the header and the deadline stays
  what it was. A row whose key is neither "deadline" nor "current_week" changes nothing.
  Under two header tokens that are distinct, not \<open>__proto__\<close> and not array indices, the
  key and the value of a row are the values of its first and second column.
\<close>

theorem config_rows_after_header:
  "(net now (CONFIG_CSV_URL pg) = Body config_headed_csv \<longrightarrow>
      fst (fetchConfigData net now pg) = \<lparr>deadline = JStr (lit ''2025-12-31''), currentWeek = Some (Num 7)\<rparr> \<and>
      CONFIG (snd (fetchConfigData net now pg)) = fst (fetchConfigData net now pg)) \<and>
   (net now (CONFIG_CSV_URL pg) = Body config_rows_csv \<longrightarrow>
      fst (fetchConfigData net now pg) = (CONFIG pg)\<lparr>currentWeek := Some (Num 7)\<rparr>) \<and>
   (array_get (Object_values row) 0 \<noteq> Some (lit ''deadline'') \<and>
    array_get (Object_values row) 0 \<noteq> Some (lit ''current_week'') \<longrightarrow> config_row row cfg = cfg) \<and>
   (h1 \<noteq> h2 \<and> h1 \<noteq> lit ''__proto__'' \<and> h2 \<noteq> lit ''__proto__'' \<and>
    \<not> is_array_index h1 \<and> \<not> is_array_index h2 \<longrightarrow>
      array_get (Object_values (build_row [h1, h2] vs)) 0 = Some (value_or_empty vs 0) \<and>
      array_get (Object_values (build_row [h1, h2] vs)) 1 = Some (value_or_empty vs 1))"
proof -
  have refresh: "(net now (CONFIG_CSV_URL pg) = Body config_headed_csv \<longrightarrow>
      fst (fetchConfigData net now pg) = \<lparr>deadline = JStr (lit ''2025-12-31''), currentWeek = Some (Num 7)\<rparr> \<and>
      CONFIG (snd (fetchConfigData net now pg)) = fst (fetchConfigData net now pg)) \<and>
   (net now (CONFIG_CSV_URL pg) = Body config_rows_csv \<longrightarrow>
      fst (fetchConfigData net now pg) = (CONFIG pg)\<lparr>currentWeek := Some (Num 7)\<rparr>)"
    by (simp add: fetchConfigData_def Let_def fold_config_rows fold_config_headed)
  have ignored: "array_get (Object_values row) 0 \<noteq> Some (lit ''deadline'') \<and>
    array_get (Object_values row) 0 \<noteq> Some (lit ''current_week'') \<longrightarrow> config_row row cfg = cfg"
    by (simp add: config_row_def)
  have positional: "h1 \<noteq> h2 \<and> h1 \<noteq> lit ''__proto__'' \<and> h2 \<noteq> lit ''__proto__'' \<and>
    \<not> is_array_index h1 \<and> \<not> is_array_index h2 \<longrightarrow>
      array_get (Object_values (build_row [h1, h2] vs)) 0 = Some (value_or_empty vs 0) \<and>
      array_get (Object_values (build_row [h1, h2] vs)) 1 = Some (value_or_empty vs 1)"
    by (simp add: build_row_def obj_set_def Object_values_def own_property_order_def array_get_def
        enumerate_eq_zip upt_conv_Cons)
  from refresh ignored positional show ?thesis by blast
qed

theorem config_rows_after_header_witness:
  "serving config_headed_csv 1 (CONFIG_CSV_URL (load_script 0)) = Body config_headed_csv \<and>
   fst (fetchConfigData (serving config_headed_csv) 1 (load_script 0)) =
     \<lparr>deadline = JStr (lit ''2025-12-31''), currentWeek = Some (Num 7)\<rparr> \<and>
   serving config_rows_csv 1 (CONFIG_CSV_URL (load_script 0)) = Body config_rows_csv \<and>
   fst (fetchConfigData (serving config_rows_csv) 1 (load_script 0)) =
     \<lparr>deadline = JNull, currentWeek = Some (Num 7)\<rparr> \<and>
   array_get (Object_values [(lit ''key'', lit ''unknown''), (lit ''value'', lit ''x'')]) 0 = Some (lit ''unknown'') \<and>
   config_row [(lit ''key'', lit ''unknown''), (lit ''value'', lit ''x'')] \<lparr>deadline = JNull, currentWeek = None\<rparr> =
     \<lparr>deadline = JNull, currentWeek = None\<rparr> \<and>
   \<not> is_array_index (lit ''key'') \<and> \<not> is_array_index (lit ''value'') \<and>
   array_get (Object_values (build_row [lit ''key'', lit ''value''] [lit ''deadline'', lit ''2025-12-31''])) 0 =
     Some (lit ''deadline'') \<and>
   array_get (Object_values (build_row [lit ''key'', lit ''value''] [lit ''deadline'', lit ''2025-12-31''])) 1 =
     Some (lit ''2025-12-31'')"
proof -
  have h: "lit ''key'' \<noteq> lit ''value''" "lit ''key'' \<noteq> lit ''__proto__''" "lit ''value'' \<noteq> lit ''__proto__''"
    "\<not> is_array_index (lit ''key'')" "\<not> is_array_index (lit ''value'')"
    by (simp_all add: lit_def is_array_index_def is_digit_def)
  have v: "value_or_empty [lit ''deadline'', lit ''2025-12-31''] 0 = lit ''deadline''"
    "value_or_empty [lit ''deadline'', lit ''2025-12-31''] 1 = lit ''2025-12-31''"
    by (simp_all add: value_or_empty_def array_get_def lit_def)
  have k: "array_get (Object_values [(lit ''key'', lit ''unknown''), (lit ''value'', lit ''x'')]) 0 = Some (lit ''unknown'')"
    by (simp add: config_defs lit_def)
  have ne: "lit ''unknown'' \<noteq> lit ''deadline''" "lit ''unknown'' \<noteq> lit ''current_week''"
    by (simp_all add: lit_def)
  have c: "CONFIG (load_script 0) = \<lparr>deadline = JNull, currentWeek = None\<rparr>"
    by (simp add: load_script_def)
  from config_rows_after_header [of "serving config_headed_csv" 1 "load_script 0"
      "[(lit ''key'', lit ''unknown''), (lit ''value'', lit ''x'')]" "\<lparr>deadline = JNull, currentWeek = None\<rparr>"
      "lit ''key''" "lit ''value''" "[lit ''deadline'', lit ''2025-12-31'']"]
    config_rows_after_header [of "serving config_rows_csv" 1 "load_script 0"
      "[(lit ''key'', lit ''unknown''), (lit ''value'', lit ''x'')]" "\<lparr>deadline = JNull, currentWeek = None\<rparr>"
      "lit ''key''" "lit ''value''" "[lit ''deadline'', lit ''2025-12-31'']"]
    k ne c h v
  show ?thesis by (simp add: serving_def)
qed

text \<open>
  The claim as written fails: on the three rows alone, the first refresh after the script
  was evaluated leaves the deadline \<open>null\<close>.
\<close>

theorem config_first_row_counterexample:
  "fst (fetchConfigData (serving config_rows_csv) 1 (load_script 0)) =
     \<lparr>deadline = JNull, currentWeek = Some (Num 7)\<rparr> \<and>
   fst (fetchConfigData (serving config_rows_csv) 1 (load_script 0)) \<noteq>
     \<lparr>deadline = JStr (lit ''2025-12-31''), currentWeek = Some (Num 7)\<rparr>"
  by (simp add: fetchConfigData_def serving_def Let_def fold_config_rows) (simp add: load_script_def)

text \<open>
  Claim C3, as amended. A config record whose key is "current_week" and whose value does not
  parse as an integer sets the current week to \<open>NaN\<close>, whatever it was before; when that
  record is the last of the sheet, the refresh returns a config whose current week is
  \<open>NaN\<close>. A record whose key is "deadline" sets the deadline to its raw value (to
  \<open>undefined\<close> when the record has no second value); when it is the last record, the
  refresh returns that deadline.
\<close>

theorem unparseable_week_overwrites:
  "(array_get (Object_values row) 0 = Some (lit ''current_week'') \<and>
    parseInt_val (array_get (Object_values row) 1) = NaN \<longrightarrow>
      config_row row cfg = cfg\<lparr>currentWeek := Some NaN\<rparr> \<and>
      (net now (CONFIG_CSV_URL pg) = Body text \<and> parseCSV text = rows @ [row] \<longrightarrow>
         currentWeek (fst (fetchConfigData net now pg)) = Some NaN)) \<and>
   (array_get (Object_values row) 0 = Some (lit ''deadline'') \<longrightarrow>
      config_row row cfg =
        cfg\<lparr>deadline := (case array_get (Object_values row) 1 of None \<Rightarrow> JUndefined | Some v \<Rightarrow> JStr v)\<rparr> \<and>
      (net now (CONFIG_CSV_URL pg) = Body text \<and> parseCSV text = rows @ [row] \<longrightarrow>
         deadline (fst (fetchConfigData net now pg)) =
           (case array_get (Object_values row) 1 of None \<Rightarrow> JUndefined | Some v \<Rightarrow> JStr v)))"
proof -
  have ne: "lit ''current_week'' \<noteq> lit ''deadline''"
    by (simp add: lit_def)
  show ?thesis
    using ne by (auto simp: fetchConfigData_def Let_def config_row_def)
qed

theorem unparseable_week_overwrites_witness:
  "week_then_garbage 2 (CONFIG_CSV_URL page_with_week) = Body garbage_week_csv \<and>
   parseCSV garbage_week_csv = [] @ [[(lit ''key'', lit ''current_week''), (lit ''value'', lit ''abc'')]] \<and>
   currentWeek (CONFIG page_with_week) = Some (Num 3) \<and>
   currentWeek (fst (fetchConfigData week_then_garbage 2 page_with_week)) = Some NaN"
proof -
  have body: "week_then_garbage 2 (CONFIG_CSV_URL page_with_week) = Body garbage_week_csv"
    by (simp add: week_then_garbage_def)
  from unparseable_week_overwrites [of "[(lit ''key'', lit ''current_week''), (lit ''value'', lit ''abc'')]"
      "CONFIG page_with_week" week_then_garbage 2 page_with_week garbage_week_csv "[]"]
    garbage_row body parse_garbage_week
  show ?thesis by (simp add: config_page_with_week)
qed

text \<open>
  The claim as written fails: with current week 3 loaded, a refresh that reads the value
  "abc" does not leave the current week at 3.
\<close>

theorem unparseable_week_counterexample:
  "currentWeek (CONFIG page_with_week) = Some (Num 3) \<and>
   currentWeek (fst (fetchConfigData week_then_garbage 2 page_with_week)) \<noteq> currentWeek (CONFIG page_with_week)"
  by (simp add: config_page_with_week)
     (simp add: fetchConfigData_def week_then_garbage_def Let_def parse_garbage_week config_row_garbage)

section \<open>Quoted fields\<close>

text \<open>
  Claim C4, as amended. The header line is split at every comma, also inside quotes, and
  the quotes are removed: the example text has the four header tokens a, b, c and d. They
  are zipped by position with the values of the data line, X, "Y,Z" and W, and the fourth
  key gets the empty string. In a data line a comma inside a quoted region never splits a
  field: a quoted region without a quote inside is appended whole to the current field.
\<close>

theorem quoted_comma_stays_in_field:
  "parseCSV quoted_csv =
     [[(lit ''a'', lit ''X''), (lit ''b'', lit ''Y,Z''), (lit ''c'', lit ''W''), (lit ''d'', [])]] \<and>
   parse_headers (hd (split_on LF (trim quoted_csv))) = [lit ''a'', lit ''b'', lit ''c'', lit ''d''] \<and>
   line_values (lit ''X,'' @ [QUOTE] @ lit ''Y,Z'' @ [QUOTE] @ lit '',W'') = [lit ''X'', lit ''Y,Z'', lit ''W''] \<and>
   (QUOTE \<notin> set u \<longrightarrow>
      scan_line (QUOTE # u @ QUOTE # rest) (values, current, False) =
      scan_line rest (values, current @ u, False))"
proof -
  have c: "line_values (lit ''X,'' @ [QUOTE] @ lit ''Y,Z'' @ [QUOTE] @ lit '',W'') = [lit ''X'', lit ''Y,Z'', lit ''W'']"
    by (simp add: eval_defs)
  have d: "scan_line (QUOTE # u @ QUOTE # rest) (values, current, False) =
      scan_line rest (values, current @ u, False)" if "QUOTE \<notin> set u"
    using scan_line_in_quotes [OF that, of "QUOTE # rest" "values" current] by simp
  from parse_quoted headers_quoted c d show ?thesis by blast
qed

theorem quoted_comma_stays_in_field_witness:
  "QUOTE \<notin> set (lit ''Y,Z'') \<and>
   scan_line (QUOTE # lit ''Y,Z'' @ QUOTE # lit '',W'') ([lit ''X''], [], False) =
   scan_line (lit '',W'') ([lit ''X''], lit ''Y,Z'', False)"
proof -
  have q: "QUOTE \<notin> set (lit ''Y,Z'')"
    by (simp add: lit_def QUOTE_def)
  from quoted_comma_stays_in_field [of "lit ''Y,Z''" "lit '',W''" "[lit ''X'']" "[]"] q
  show ?thesis by simp
qed

text \<open>
  The claim as written fails: the header line of the example gives four header tokens, not
  three, and the record has four keys.
\<close>

theorem quoted_header_counterexample:
  "length (parse_headers (hd (split_on LF (trim quoted_csv)))) \<noteq> 3 \<and>
   map Object_keys (parseCSV quoted_csv) = [[lit ''a'', lit ''b'', lit ''c'', lit ''d'']]"
  unfolding parse_quoted headers_quoted
  by (simp add: Object_keys_def own_property_order_def is_array_index_def is_digit_def lit_def)

section \<open>The address of a fetch\<close>

text \<open>
  Claim C5. The address of the leaderboard is built once, when the script is evaluated, and
  the cache-busting parameter in it is the time of that evaluation. Two refreshes of a page,
  at any two times and whatever the network answers, fetch the same address; for a script
  evaluated at time 1000 and refreshes at times 1000 and 301000 both addresses end in the
  encoded parameter of time 1000.
\<close>

theorem leaderboard_address_fixed_at_load:
  "map snd (requests (snd (fetchLeaderboardData net2 t2 (snd (fetchLeaderboardData net1 t1 (load_script t0)))))) =
     [LEADERBOARD_CSV_URL (load_script t0), LEADERBOARD_CSV_URL (load_script t0)] \<and>
   requests (snd (fetchLeaderboardData net2 301000 (snd (fetchLeaderboardData net1 1000 (load_script 1000))))) =
     [(1000,
       lit ''https://api.codetabs.com/v1/proxy?quest='' @
       lit ''https%3A%2F%2Fdocs.google.com%2Fspreadsheets%2Fd%2F1htoeLmi-aczeAOJpHjf3hFnT5L26kUaGHukXX6l920g'' @
       lit ''%2Fexport%3Fformat%3Dcsv%26gid%3D0%26_%3D1000''),
      (301000,
       lit ''https://api.codetabs.com/v1/proxy?quest='' @
       lit ''https%3A%2F%2Fdocs.google.com%2Fspreadsheets%2Fd%2F1htoeLmi-aczeAOJpHjf3hFnT5L26kUaGHukXX6l920g'' @
       lit ''%2Fexport%3Fformat%3Dcsv%26gid%3D0%26_%3D1000'')]"
proof -
  have "requests (load_script t) = []" for t
    by (simp add: load_script_def)
  then have gen: "requests (snd (fetchLeaderboardData n2 s2 (snd (fetchLeaderboardData n1 s1 (load_script t))))) =
     [(s1, LEADERBOARD_CSV_URL (load_script t)), (s2, LEADERBOARD_CSV_URL (load_script t))]" for n1 n2 s1 s2 t
    by (simp add: requests_fetchLeaderboardData url_fetchLeaderboardData)
  show ?thesis
    unfolding gen leaderboard_url_1000 by simp
qed

section \<open>The order of the contestants\<close>

text \<open>
  Claim C6, as amended. After a successful refresh in which the Current Rank of every kept
  record parses as an integer, the owned collection is the returned sequence, it holds the
  projected contestants, it is sorted non-decreasing by current rank, and the contestants
  of equal current rank stand in the order of their records.
\<close>

theorem refresh_sorted_by_rank:
  assumes "net now (LEADERBOARD_CSV_URL pg) = Body text"
    and "\<forall>c \<in> set (project_rows (parseCSV text)). currentRank c \<noteq> NaN"
  shows "CONTESTANTS (snd (fetchLeaderboardData net now pg)) = fst (fetchLeaderboardData net now pg) \<and>
    mset (fst (fetchLeaderboardData net now pg)) = mset (project_rows (parseCSV text)) \<and>
    sorted_wrt (\<lambda>a b. num_le (currentRank a) (currentRank b)) (fst (fetchLeaderboardData net now pg)) \<and>
    (\<forall>r. filter (\<lambda>c. currentRank c = r) (fst (fetchLeaderboardData net now pg)) =
          filter (\<lambda>c. currentRank c = r) (project_rows (parseCSV text)))"
proof -
  have res: "fst (fetchLeaderboardData net now pg) = Array_sort by_currentRank (project_rows (parseCSV text))"
    using assms(1) by (simp add: fetchLeaderboardData_def Let_def)
  have st: "CONTESTANTS (snd (fetchLeaderboardData net now pg)) = fst (fetchLeaderboardData net now pg)"
    using assms(1) by (simp add: fetchLeaderboardData_def Let_def)
  show ?thesis
    unfolding st res
    using sorted_Array_sort [OF assms(2)] stable_Array_sort [OF assms(2)]
    by (simp add: mset_Array_sort)
qed

theorem refresh_sorted_by_rank_witness:
  "serving tied_ranks_csv 1 (LEADERBOARD_CSV_URL (load_script 0)) = Body tied_ranks_csv \<and>
   list_all (\<lambda>c. currentRank c \<noteq> NaN) (project_rows (parseCSV tied_ranks_csv)) \<and>
   map codename (fst (fetchLeaderboardData (serving tied_ranks_csv) 1 (load_script 0))) =
     [Some (lit ''B''), Some (lit ''A''), Some (lit ''C'')] \<and>
   sorted_wrt (\<lambda>a b. num_le (currentRank a) (currentRank b))
     (fst (fetchLeaderboardData (serving tied_ranks_csv) 1 (load_script 0))) \<and>
   filter (\<lambda>c. currentRank c = Num 2) (fst (fetchLeaderboardData (serving tied_ranks_csv) 1 (load_script 0))) =
     filter (\<lambda>c. currentRank c = Num 2) (project_rows (parseCSV tied_ranks_csv))"
proof -
  have body: "serving tied_ranks_csv 1 (LEADERBOARD_CSV_URL (load_script 0)) = Body tied_ranks_csv"
    by (simp add: serving_def)
  have nums: "\<forall>c \<in> set (project_rows (parseCSV tied_ranks_csv)). currentRank c \<noteq> NaN"
    by (simp add: project_tied_ranks)
  have order: "map codename (fst (fetchLeaderboardData (serving tied_ranks_csv) 1 (load_script 0))) =
     [Some (lit ''B''), Some (lit ''A''), Some (lit ''C'')]"
    by (simp add: fetchLeaderboardData_def serving_def Let_def project_tied_ranks)
       (simp add: Array_sort_def by_currentRank_def num_sub_def comes_after_def)
  from refresh_sorted_by_rank [of "serving tied_ranks_csv" 1 "load_script 0" tied_ranks_csv] body nums order
  show ?thesis by (simp add: list_all_iff)
qed

text \<open>
  The claim as written fails: a record whose Current Rank is "x" is kept with rank
  \<open>NaN\<close>, and the two contestants are in non-decreasing order neither as the sort
  leaves them nor the other way round.
\<close>

theorem refresh_sorted_counterexample:
  "\<not> sorted_wrt (\<lambda>a b. num_le (currentRank a) (currentRank b))
       (CONTESTANTS (snd (fetchLeaderboardData (serving nan_rank_csv) 1 (load_script 0)))) \<and>
   \<not> sorted_wrt (\<lambda>a b. num_le (currentRank a) (currentRank b))
       (rev (CONTESTANTS (snd (fetchLeaderboardData (serving nan_rank_csv) 1 (load_script 0)))))"
proof -
  have "CONTESTANTS (snd (fetchLeaderboardData (serving nan_rank_csv) 1 (load_script 0))) =
     [\<lparr>codename = Some (lit ''A''), currentRank = NaN, previousRank = NaN, shamed = False\<rparr>,
      \<lparr>codename = Some (lit ''B''), currentRank = Num 1, previousRank = Num 1, shamed = False\<rparr>]"
    by (simp add: fetchLeaderboardData_def serving_def parse_nan_rank project_rows_def Array_sort_def
        by_currentRank_def num_sub_def comes_after_def row_defs)
  then show ?thesis
    by (simp add: num_le_def)
qed

section \<open>The projection of the records\<close>

text \<open>
  Claim C7, as amended. A record whose Codename or Current Rank is absent or empty is left
  out of the projected sequence. A record that has both is kept in its place; its current
  rank is the Current Rank parsed as an integer in base 10, and its previous rank is the
  Previous Rank parsed in base 10, unless that parse gives \<open>NaN\<close> (the field is absent,
  empty or not numeric) or zero, in which case it is the current rank. The sequence that a
  successful refresh returns is a rearrangement of the projected sequence.
\<close>

theorem projection_filter_and_fallback:
  "(\<not> truthy (obj_get row (lit ''Codename'')) \<or> \<not> truthy (obj_get row (lit ''Current Rank'')) \<longrightarrow>
      project_rows (before @ row # after) = project_rows before @ project_rows after) \<and>
   (truthy (obj_get row (lit ''Codename'')) \<and> truthy (obj_get row (lit ''Current Rank'')) \<longrightarrow>
      project_rows (before @ row # after) = project_rows before @ to_contestant row # project_rows after \<and>
      currentRank (to_contestant row) = parseInt_val (obj_get row (lit ''Current Rank'')) \<and>
      previousRank (to_contestant row) =
        (if parseInt_val (obj_get row (lit ''Previous Rank'')) = NaN
            \<or> parseInt_val (obj_get row (lit ''Previous Rank'')) = Num 0
         then currentRank (to_contestant row)
         else parseInt_val (obj_get row (lit ''Previous Rank'')))) \<and>
   parseInt_val None = NaN \<and> parseInt [] = NaN \<and>
   (net now (LEADERBOARD_CSV_URL pg) = Body text \<longrightarrow>
      mset (fst (fetchLeaderboardData net now pg)) = mset (project_rows (parseCSV text)))"
proof -
  have split: "project_rows (before @ row # after) =
      project_rows before @ project_rows [row] @ project_rows after"
    using project_rows_append [of before "[row] @ after"] project_rows_append [of "[row]" after] by simp
  have drop: "project_rows [row] = []" if "\<not> keep_row row"
    using that by (simp add: project_rows_def)
  have keep: "project_rows [row] = [to_contestant row]" if "keep_row row"
    using that by (simp add: project_rows_def)
  have ranks: "currentRank (to_contestant row) = parseInt_val (obj_get row (lit ''Current Rank''))"
    "previousRank (to_contestant row) =
        (if parseInt_val (obj_get row (lit ''Previous Rank'')) = NaN
            \<or> parseInt_val (obj_get row (lit ''Previous Rank'')) = Num 0
         then currentRank (to_contestant row)
         else parseInt_val (obj_get row (lit ''Previous Rank'')))"
    by (simp_all add: to_contestant_def num_or_def)
  show ?thesis
    using split drop keep ranks parseInt_undefined parseInt_empty mset_fetchLeaderboardData [of net now pg "text"]
    by (auto simp: keep_row_def)
qed

theorem projection_filter_and_fallback_witness:
  "\<not> truthy (obj_get [(lit ''Codename'', []), (lit ''Current Rank'', lit ''5'')] (lit ''Codename'')) \<and>
   project_rows ([] @ [(lit ''Codename'', []), (lit ''Current Rank'', lit ''5'')] # []) = [] \<and>
   truthy (obj_get [(lit ''Codename'', lit ''A''), (lit ''Current Rank'', lit ''5'')] (lit ''Codename'')) \<and>
   truthy (obj_get [(lit ''Codename'', lit ''A''), (lit ''Current Rank'', lit ''5'')] (lit ''Current Rank'')) \<and>
   project_rows ([] @ [(lit ''Codename'', lit ''A''), (lit ''Current Rank'', lit ''5'')] # []) =
     [\<lparr>codename = Some (lit ''A''), currentRank = Num 5, previousRank = Num 5, shamed = False\<rparr>] \<and>
   serving zero_previous_csv 1 (LEADERBOARD_CSV_URL (load_script 0)) = Body zero_previous_csv \<and>
   mset (fst (fetchLeaderboardData (serving zero_previous_csv) 1 (load_script 0))) =
     mset (project_rows (parseCSV zero_previous_csv))"
proof -
  let ?dropped = "[(lit ''Codename'', []), (lit ''Current Rank'', lit ''5'')]"
  let ?kept = "[(lit ''Codename'', lit ''A''), (lit ''Current Rank'', lit ''5'')]"
  have d: "\<not> truthy (obj_get ?dropped (lit ''Codename''))"
    by (simp add: row_defs)
  have k: "truthy (obj_get ?kept (lit ''Codename''))" "truthy (obj_get ?kept (lit ''Current Rank''))"
    by (simp_all add: row_defs)
  have c: "to_contestant ?kept =
      \<lparr>codename = Some (lit ''A''), currentRank = Num 5, previousRank = Num 5, shamed = False\<rparr>"
    by (simp add: row_defs)
  have e: "project_rows [] = []"
    by (simp add: project_rows_def)
  have b: "serving zero_previous_csv 1 (LEADERBOARD_CSV_URL (load_script 0)) = Body zero_previous_csv"
    by (simp add: serving_def)
  from projection_filter_and_fallback [of ?dropped "[]" "[]" "serving zero_previous_csv" 1 "load_script 0" zero_previous_csv]
    projection_filter_and_fallback [of ?kept "[]" "[]" "serving zero_previous_csv" 1 "load_script 0" zero_previous_csv]
    d k b
  show ?thesis
    unfolding c e by simp
qed

text \<open>
  The claim as written fails: the Previous Rank "0" is numeric and parses to 0, and the
  contestant gets the current rank 5 as its previous rank.
\<close>

theorem zero_previous_rank_counterexample:
  "map (\<lambda>row. obj_get row (lit ''Previous Rank'')) (parseCSV zero_previous_csv) = [Some (lit ''0'')] \<and>
   parseInt (lit ''0'') = Num 0 \<and>
   map previousRank (fst (fetchLeaderboardData (serving zero_previous_csv) 1 (load_script 0))) = [Num 5]"
  by (simp add: fetchLeaderboardData_def serving_def parse_zero_previous project_rows_def
      Array_sort_def row_defs)

text \<open>
  Claim C10. For a record whose Current Rank is not empty and does not parse as an integer,
  the filter decides on the presence of the Codename alone: the rank that does not parse
  never excludes the record. The contestant made from the record has the current rank
  \<open>NaN\<close>; when the record has a Codename, that contestant stands in the projected
  sequence at the place of the record and is in the sequence a successful refresh returns.
\<close>

theorem unparseable_rank_is_kept:
  "obj_get row (lit ''Current Rank'') = Some r \<and> r \<noteq> [] \<and> parseInt r = NaN \<longrightarrow>
     keep_row row = truthy (obj_get row (lit ''Codename'')) \<and>
     currentRank (to_contestant row) = NaN \<and>
     (truthy (obj_get row (lit ''Codename'')) \<longrightarrow>
        project_rows (before @ row # after) = project_rows before @ to_contestant row # project_rows after \<and>
        (net now (LEADERBOARD_CSV_URL pg) = Body text \<and> row \<in> set (parseCSV text) \<longrightarrow>
           to_contestant row \<in> set (fst (fetchLeaderboardData net now pg))))"
proof (intro impI, elim conjE)
  assume r: "obj_get row (lit ''Current Rank'') = Some r" "r \<noteq> []" "parseInt r = NaN"
  then have keep: "keep_row row = truthy (obj_get row (lit ''Codename''))"
    by (simp add: keep_row_def truthy_def)
  have rank: "currentRank (to_contestant row) = NaN"
    using r by (simp add: to_contestant_def parseInt_val_def)
  have mid: "project_rows (before @ row # after) = project_rows before @ to_contestant row # project_rows after"
    if "truthy (obj_get row (lit ''Codename''))"
    using that keep by (simp add: project_rows_def)
  have mem: "to_contestant row \<in> set (fst (fetchLeaderboardData net now pg))"
    if "truthy (obj_get row (lit ''Codename''))" "net now (LEADERBOARD_CSV_URL pg) = Body text"
      "row \<in> set (parseCSV text)"
    using that keep by (simp add: fetchLeaderboardData_def Let_def set_Array_sort project_rows_def)
  from keep rank mid mem
  show "keep_row row = truthy (obj_get row (lit ''Codename'')) \<and>
     currentRank (to_contestant row) = NaN \<and>
     (truthy (obj_get row (lit ''Codename'')) \<longrightarrow>
        project_rows (before @ row # after) = project_rows before @ to_contestant row # project_rows after \<and>
        (net now (LEADERBOARD_CSV_URL pg) = Body text \<and> row \<in> set (parseCSV text) \<longrightarrow>
           to_contestant row \<in> set (fst (fetchLeaderboardData net now pg))))"
    by blast
qed

theorem unparseable_rank_is_kept_witness:
  "obj_get [(lit ''Codename'', lit ''A''), (lit ''Current Rank'', lit ''x'')] (lit ''Current Rank'') = Some (lit ''x'') \<and>
   lit ''x'' \<noteq> [] \<and> parseInt (lit ''x'') = NaN \<and>
   truthy (obj_get [(lit ''Codename'', lit ''A''), (lit ''Current Rank'', lit ''x'')] (lit ''Codename'')) \<and>
   serving nan_rank_csv 1 (LEADERBOARD_CSV_URL (load_script 0)) = Body nan_rank_csv \<and>
   [(lit ''Codename'', lit ''A''), (lit ''Current Rank'', lit ''x'')] \<in> set (parseCSV nan_rank_csv) \<and>
   \<lparr>codename = Some (lit ''A''), currentRank = NaN, previousRank = NaN, shamed = False\<rparr>
     \<in> set (fst (fetchLeaderboardData (serving nan_rank_csv) 1 (load_script 0)))"
proof -
  let ?row = "[(lit ''Codename'', lit ''A''), (lit ''Current Rank'', lit ''x'')]"
  have a: "obj_get ?row (lit ''Current Rank'') = Some (lit ''x'')"
    by (simp add: obj_get_def lit_def)
  have b: "lit ''x'' \<noteq> []" "parseInt (lit ''x'') = NaN"
    by (simp_all add: row_defs)
  have c: "truthy (obj_get ?row (lit ''Codename''))"
    by (simp add: row_defs)
  have d: "serving nan_rank_csv 1 (LEADERBOARD_CSV_URL (load_script 0)) = Body nan_rank_csv"
    by (simp add: serving_def)
  have e: "?row \<in> set (parseCSV nan_rank_csv)"
    by (simp add: parse_nan_rank)
  have f: "to_contestant ?row = \<lparr>codename = Some (lit ''A''), currentRank = NaN, previousRank = NaN, shamed = False\<rparr>"
    by (simp add: row_defs)
  from unparseable_rank_is_kept [of ?row "lit ''x''" "[]" "[]" "serving nan_rank_csv" 1 "load_script 0" nan_rank_csv]
    a b c d e
  show ?thesis
    unfolding f by simp
qed

section \<open>The number and the shape of the records\<close>

text \<open>
  Claim C8, as amended. Let a text be white space, then a core that neither starts nor ends
  with white space, then white space, so that the core is the trimmed text and it has
  \<open>n\<close> lines, one more than it has line feeds. For \<open>n < 2\<close> \<open>parseCSV\<close> returns the
  empty sequence; so it does for the empty text, for a header line alone and for a header
  line with line ends around it. For \<open>n \<ge> 2\<close> it returns \<open>n - 1\<close> records. Every record
  has as many keys as there are different header tokens other than \<open>__proto__\<close>; that is
  the number of header tokens, one more than the header line has commas, exactly when the
  tokens are pairwise distinct and none is \<open>__proto__\<close>.
\<close>

theorem parseCSV_record_count:
  assumes "list_all is_ws pre" and "list_all is_ws post"
    and "core = [] \<or> (\<not> is_ws (hd core) \<and> \<not> is_ws (last core))"
  shows "length (split_on LF (trim (pre @ core @ post))) = count_list core LF + 1 \<and>
    (count_list core LF + 1 < 2 \<longrightarrow> parseCSV (pre @ core @ post) = []) \<and>
    (2 \<le> count_list core LF + 1 \<longrightarrow>
       length (parseCSV (pre @ core @ post)) = count_list core LF + 1 - 1 \<and>
       (\<forall>row \<in> set (parseCSV (pre @ core @ post)).
          length (Object_keys row) =
            card (set (parse_headers (takeWhile (\<lambda>c. c \<noteq> LF) core)) - {lit ''__proto__''}) \<and>
          (length (Object_keys row) = length (parse_headers (takeWhile (\<lambda>c. c \<noteq> LF) core))) =
            (distinct (parse_headers (takeWhile (\<lambda>c. c \<noteq> LF) core)) \<and>
             lit ''__proto__'' \<notin> set (parse_headers (takeWhile (\<lambda>c. c \<noteq> LF) core))))) \<and>
    length (parse_headers (takeWhile (\<lambda>c. c \<noteq> LF) core)) =
      count_list (takeWhile (\<lambda>c. c \<noteq> LF) core) COMMA + 1 \<and>
    parseCSV [] = [] \<and> parseCSV (lit ''onlyheader'') = [] \<and>
    parseCSV (lit ''onlyheader'' @ [LF]) = [] \<and> parseCSV ([32, LF] @ lit ''onlyheader'' @ [13, LF]) = []"
proof -
  let ?text = "pre @ core @ post"
  let ?hs = "parse_headers (takeWhile (\<lambda>c. c \<noteq> LF) core)"
  have tr: "trim ?text = core"
    using assms by (rule trim_decomposed)
  have n: "length (split_on LF (trim ?text)) = count_list core LF + 1"
    by (simp add: tr length_split_on)
  have few: "count_list core LF + 1 < 2 \<longrightarrow> parseCSV ?text = []"
    using n by (simp add: parseCSV_def Let_def)
  have count: "2 \<le> count_list core LF + 1 \<longrightarrow> length (parseCSV ?text) = count_list core LF + 1 - 1"
    using n by (simp add: length_parseCSV)
  have keys: "length (Object_keys row) = card (set ?hs - {lit ''__proto__''})"
    if "2 \<le> count_list core LF + 1" and row: "row \<in> set (parseCSV ?text)" for row
  proof -
    from that n obtain line where "row = build_row (parse_headers (hd (split_on LF core))) (line_values line)"
      by (auto simp: parseCSV_def Let_def tr)
    then show ?thesis
      by (simp add: length_Object_keys length_build_row hd_split_on)
  qed
  have tokens: "length ?hs = count_list (takeWhile (\<lambda>c. c \<noteq> LF) core) COMMA + 1"
    by (simp add: parse_headers_def length_split_on)
  have e1: "parseCSV [] = []"
    by (simp add: eval_defs)
  have e2: "parseCSV (lit ''onlyheader'') = []"
    by (simp add: eval_defs)
  have e3: "parseCSV (lit ''onlyheader'' @ [LF]) = []"
    by (simp add: eval_defs)
  have e4: "parseCSV ([32, LF] @ lit ''onlyheader'' @ [13, LF]) = []"
    by (simp add: eval_defs)
  from n few count keys tokens e1 e2 e3 e4 card_without_eq_length [of ?hs "lit ''__proto__''"]
  show ?thesis by simp
qed

theorem parseCSV_record_count_witness:
  "list_all is_ws [32, LF] \<and> list_all is_ws [13, LF, 32] \<and>
   \<not> is_ws (hd (lit ''a,b'' @ [LF] @ lit ''1,2'' @ [LF] @ lit ''3'')) \<and>
   \<not> is_ws (last (lit ''a,b'' @ [LF] @ lit ''1,2'' @ [LF] @ lit ''3'')) \<and>
   count_list (lit ''a,b'' @ [LF] @ lit ''1,2'' @ [LF] @ lit ''3'') LF + 1 = 3 \<and>
   length (parseCSV padded_csv) = 2 \<and>
   list_all (\<lambda>row. length (Object_keys row) = 2) (parseCSV padded_csv) \<and>
   list_all is_ws [LF] \<and> count_list (lit ''onlyheader'') LF + 1 = 1 \<and>
   parseCSV ([] @ lit ''onlyheader'' @ [LF]) = []"
proof -
  let ?core = "lit ''a,b'' @ [LF] @ lit ''1,2'' @ [LF] @ lit ''3''"
  have ws: "list_all is_ws [32, LF]" "list_all is_ws [13, LF, 32]" "list_all is_ws [LF]" "list_all is_ws []"
    by (simp_all add: is_ws_def LF_def)
  have ends: "\<not> is_ws (hd ?core)" "\<not> is_ws (last ?core)"
    "\<not> is_ws (hd (lit ''onlyheader''))" "\<not> is_ws (last (lit ''onlyheader''))"
    by (simp_all add: is_ws_def lit_def LF_def)
  have n: "count_list ?core LF + 1 = 3" "count_list (lit ''onlyheader'') LF + 1 = 1"
    by (simp_all add: lit_def LF_def)
  have hs: "parse_headers (takeWhile (\<lambda>c. c \<noteq> LF) ?core) = [lit ''a'', lit ''b'']"
    by (simp add: eval_defs)
  have dist: "distinct [lit ''a'', lit ''b'']" "lit ''__proto__'' \<notin> set [lit ''a'', lit ''b'']"
    by (simp_all add: lit_def)
  have shape: "padded_csv = [32, LF] @ ?core @ [13, LF, 32]"
    by (simp add: padded_csv_def)
  from parseCSV_record_count [of "[32, LF]" "[13, LF, 32]" ?core]
    parseCSV_record_count [of "[]" "[LF]" "lit ''onlyheader''"]
    ws ends n
  show ?thesis
    unfolding shape [symmetric] hs using dist by (simp add: list_all_iff)
qed

text \<open>
  The claim as written fails: a header line that repeats a token gives a record with one
  key for two header tokens.
\<close>

theorem repeated_header_counterexample:
  "map (\<lambda>row. length (Object_keys row)) (parseCSV repeated_header_csv) = [1] \<and>
   length (parse_headers (hd (split_on LF (trim repeated_header_csv)))) = 2"
proof -
  have "parse_headers (hd (split_on LF (trim repeated_header_csv))) = [lit ''a'', lit ''a'']"
    by (simp add: repeated_header_csv_def eval_defs)
  then show ?thesis
    by (simp add: parse_repeated_header length_Object_keys)
qed

section \<open>The movement of a contestant\<close>

text \<open>
  Claim C9. \<open>getMovement\<close> is a function of the two ranks, defined on every pair of
  integers. With \<open>diff = previousRank - currentRank\<close>: for \<open>diff > 0\<close> the symbol is the
  up arrow followed by \<open>diff\<close> and the direction is "up"; for \<open>diff < 0\<close> the symbol is the
  down arrow followed by \<open>|diff|\<close> and the direction is "down"; for \<open>diff = 0\<close> the symbol is
  the en dash and the direction is "same". The direction is carried by the \<open>class\<close>
  property of the result, as the text "movement-" followed by the direction. The three
  examples are ranks 1 after 3, 5 after 2 and 4 after 4.
\<close>

theorem getMovement_contract:
  "getMovement (Num c) (Num p) =
     (if p - c > 0
      then \<lparr>symbol = UP_ARROW # number_to_string (Num (p - c)), css_class = lit ''movement-'' @ lit ''up''\<rparr>
      else if p - c < 0
      then \<lparr>symbol = DOWN_ARROW # number_to_string (Num \<bar>p - c\<bar>), css_class = lit ''movement-'' @ lit ''down''\<rparr>
      else \<lparr>symbol = [EN_DASH], css_class = lit ''movement-'' @ lit ''same''\<rparr>) \<and>
   getMovement (Num 1) (Num 3) = \<lparr>symbol = UP_ARROW # lit ''2'', css_class = lit ''movement-up''\<rparr> \<and>
   getMovement (Num 5) (Num 2) = \<lparr>symbol = DOWN_ARROW # lit ''3'', css_class = lit ''movement-down''\<rparr> \<and>
   getMovement (Num 4) (Num 4) = \<lparr>symbol = [EN_DASH], css_class = lit ''movement-same''\<rparr>"
  by (simp add: getMovement_def num_sub_def num_gt_def num_lt_def Math_abs_def Let_def lit_def
      number_to_string_def digits_of.simps)

end
